theory Spec2Isabelle
  imports Complex_Main "HOL-Library.Product_Lexorder"
begin

section \<open>Python strings\<close>

text \<open>
  A Python \<open>str\<close> is a sequence of code points. The model keeps the code points below
  256 (the type \<open>char\<close>, read as Latin-1), where the character classes used by the
  sources are the ones written out below; \<open>of_char\<close> is Python's \<open>ord\<close>.
\<close>

definition ord :: "char \<Rightarrow> nat" where
  "ord c = of_char c"

text \<open>The regular-expression classes \<open>[A-Z]\<close>, \<open>[a-z]\<close> and \<open>[0-9]\<close> of \<open>app.py\<close>.\<close>

definition is_upper :: "char \<Rightarrow> bool" where
  "is_upper c = (65 \<le> ord c \<and> ord c \<le> 90)"

definition is_lower :: "char \<Rightarrow> bool" where
  "is_lower c = (97 \<le> ord c \<and> ord c \<le> 122)"


text \<open>\<open>str.isspace\<close> and \<open>str.isalnum\<close> on one character (code points below 256).\<close>

definition isspace :: "char \<Rightarrow> bool" where
  "isspace c = (ord c \<in> {9, 10, 11, 12, 13, 28, 29, 30, 31, 32, 133, 160})"

definition isalnum :: "char \<Rightarrow> bool" where
  "isalnum c =
     (let n = ord c in
      (48 \<le> n \<and> n \<le> 57) \<or> (65 \<le> n \<and> n \<le> 90) \<or> (97 \<le> n \<and> n \<le> 122) \<or>
      n \<in> {170, 178, 179, 181, 185, 186, 188, 189, 190} \<or>
      (192 \<le> n \<and> n \<le> 214) \<or> (216 \<le> n \<and> n \<le> 246) \<or> 248 \<le> n)"

text \<open>
  \<open>s.split()\<close>: the maximal runs of non-whitespace characters, in order. The first
  argument is the token being read.
\<close>

fun split_ws :: "string \<Rightarrow> string \<Rightarrow> string list" where
  "split_ws cur [] = (if cur = [] then [] else [cur])"
| "split_ws cur (c # cs) =
     (if isspace c then (if cur = [] then split_ws [] cs else cur # split_ws [] cs)
      else split_ws (cur @ [c]) cs)"

definition py_split :: "string \<Rightarrow> string list" where
  "py_split s = split_ws [] s"

text \<open>
  \<open>s.split(sep)\<close> for a non-empty separator: the text is scanned from the left, and
  each occurrence of \<open>sep\<close> found ends a piece and is skipped whole. The second argument
  counts the characters of a found separator still to skip, the third is the piece
  being read.
\<close>

fun split_at :: "string \<Rightarrow> nat \<Rightarrow> string \<Rightarrow> string \<Rightarrow> string list" where
  "split_at sep k cur [] = [cur]"
| "split_at sep (Suc k) cur (c # cs) = split_at sep k cur cs"
| "split_at sep 0 cur (c # cs) =
     (if take (length sep) (c # cs) = sep then cur # split_at sep (length sep - 1) [] cs
      else split_at sep 0 (cur @ [c]) cs)"

definition py_split_sep :: "string \<Rightarrow> string \<Rightarrow> string list" where
  "py_split_sep sep s = split_at sep 0 [] s"

text \<open>\<open>sep.join(xs)\<close>.\<close>

fun join :: "string \<Rightarrow> string list \<Rightarrow> string" where
  "join sep [] = []"
| "join sep [x] = x"
| "join sep (x # y # ys) = x @ sep @ join sep (y # ys)"

text \<open>\<open>str(n)\<close> of a natural number: its decimal digits.\<close>

fun str_nat :: "nat \<Rightarrow> string" where
  "str_nat n =
     (if n < 10 then [char_of (48 + n)]
      else str_nat (n div 10) @ [char_of (48 + n mod 10)])"

section \<open>Errors\<close>

datatype error =
    IndexError
  | ValueError
  | DbError
  | SourceError
  | Abort nat

section \<open>Citation export: \<open>app.py\<close>\<close>

subsection \<open>\<open>protect_capitals_for_bibtex\<close>\<close>

definition protect_match :: "string \<Rightarrow> string" where
  "protect_match text = ''{'' @ text @ ''}''"

text \<open>
  \<open>re.sub(r'[A-Z]{2,}', protect_match, title)\<close>: every maximal run of capitals is one
  greedy match when it has two letters or more; a lone capital is left as it is. The first
  argument is the run of capitals being read.
\<close>

definition close_run :: "string \<Rightarrow> string" where
  "close_run run = (if 2 \<le> length run then protect_match run else run)"

fun sub_acronyms :: "string \<Rightarrow> string \<Rightarrow> string" where
  "sub_acronyms run [] = close_run run"
| "sub_acronyms run (c # cs) =
     (if is_upper c then sub_acronyms (run @ [c]) cs
      else close_run run @ c # sub_acronyms [] cs)"

text \<open>
  \<open>re.sub(r'(?<=[...])[A-Z]', protect_match, result)\<close>: a capital is wrapped when the
  character before it in the subject string is of the class \<open>P\<close>; the lookbehind reads
  the subject, not the replaced text. The second argument is the previous character.
\<close>

fun sub_after :: "(char \<Rightarrow> bool) \<Rightarrow> char option \<Rightarrow> string \<Rightarrow> string" where
  "sub_after P prev [] = []"
| "sub_after P prev (c # cs) =
     (if is_upper c \<and> (case prev of None \<Rightarrow> False | Some p \<Rightarrow> P p)
      then protect_match [c] else [c]) @ sub_after P (Some c) cs"

definition hyphen_or_slash :: "char \<Rightarrow> bool" where
  "hyphen_or_slash c = (c = CHR ''-'' \<or> c = CHR ''/'')"

definition protect_capitals_for_bibtex :: "string \<Rightarrow> string" where
  "protect_capitals_for_bibtex title =
     (let result = sub_acronyms [] title;
          result = sub_after is_lower None result;
          result = sub_after hyphen_or_slash None result
      in result)"

subsection \<open>The citation key and the cleaned identifier (\<open>bibtex\<close>, lines 160 to 180)\<close>

text \<open>
  \<open>first_author.split()[-1]\<close> raises \<open>IndexError\<close> when the name has no token.
\<close>

definition bibtex_key :: "string list \<Rightarrow> nat \<Rightarrow> error + string" where
  "bibtex_key authors year =
     (case authors of
        first_author # _ \<Rightarrow>
          (case py_split first_author of
             [] \<Rightarrow> Inl IndexError
           | t # ts \<Rightarrow>
               (let last_name = last (t # ts);
                    last_name = filter isalnum last_name
                in Inr (last_name @ str_nat year @ ''x'')))
      | [] \<Rightarrow> Inr (''arxiv'' @ str_nat year @ ''x''))"

definition clean_arxiv_id :: "string \<Rightarrow> string" where
  "clean_arxiv_id arxiv_id =
     (if CHR ''v'' \<in> set arxiv_id then hd (py_split_sep ''v'' arxiv_id) else arxiv_id)"

section \<open>The schema\<close>

text \<open>
  The five tables the sources read and write. A date is (year, month, day); the
  lexicographic order of the triple is the calendar order.
\<close>

type_synonym date = "nat \<times> nat \<times> nat"

record paper_row =
  p_id :: nat
  p_arxiv_id :: string
  p_title :: string
  p_abstract :: string
  p_published_date :: date
  p_updated_date :: "date option"
  p_comment :: "string option"
  p_journal_ref :: "string option"
  p_doi :: "string option"
  p_primary_category :: string

record author_row =
  a_id :: nat
  a_name :: string

record paper_author_row =
  pa_paper_id :: nat
  pa_author_id :: nat
  pa_author_order :: nat

record tag_row =
  t_id :: nat
  t_name :: string
  t_tag_type :: string
  t_description :: "string option"

record paper_tag_row =
  pt_paper_id :: nat
  pt_tag_id :: nat

record db =
  papers :: "paper_row list"
  authors :: "author_row list"
  paper_authors :: "paper_author_row list"
  tags :: "tag_row list"
  paper_tags :: "paper_tag_row list"

text \<open>
  An \<open>AUTO_INCREMENT\<close> id: a value above every id of the table. Only its freshness is
  used.
\<close>

definition fresh_id :: "nat list \<Rightarrow> nat" where
  "fresh_id ids = Suc (fold max ids 0)"

text \<open>
  Modelled from the spec: the table declarations are not among the sources. The
  natural keys compare by equality (external ID of a paper, display name of an author,
  (name, type) of a tag); a Paper--Author link associates a paper with an author and a
  Paper--Tag link a paper with a tag, with no duplicate links, so that the
  \<open>INSERT IGNORE\<close> of a link leaves the table as it is when the pair is already linked.
\<close>

definition insert_ignore_paper_author :: "nat \<Rightarrow> nat \<Rightarrow> nat \<Rightarrow> db \<Rightarrow> db" where
  "insert_ignore_paper_author paper_id author_id order d =
     (if list_ex (\<lambda>l. pa_paper_id l = paper_id \<and> pa_author_id l = author_id) (paper_authors d)
      then d
      else d\<lparr>paper_authors := paper_authors d @
             [\<lparr>pa_paper_id = paper_id, pa_author_id = author_id, pa_author_order = order\<rparr>]\<rparr>)"

definition insert_ignore_paper_tag :: "nat \<Rightarrow> nat \<Rightarrow> db \<Rightarrow> db" where
  "insert_ignore_paper_tag paper_id tag_id d =
     (if list_ex (\<lambda>l. pt_paper_id l = paper_id \<and> pt_tag_id l = tag_id) (paper_tags d)
      then d
      else d\<lparr>paper_tags := paper_tags d @ [\<lparr>pt_paper_id = paper_id, pt_tag_id = tag_id\<rparr>]\<rparr>)"

text \<open>
  \<open>INSERT INTO authors (name) VALUES (%s) ON DUPLICATE KEY UPDATE id=LAST_INSERT_ID(id)\<close>
  followed by \<open>cursor.lastrowid\<close>: the id of the row of that name, created when absent.
\<close>

definition upsert_author :: "string \<Rightarrow> db \<Rightarrow> db \<times> nat" where
  "upsert_author author_name d =
     (case find (\<lambda>a. a_name a = author_name) (authors d) of
        Some a \<Rightarrow> (d, a_id a)
      | None \<Rightarrow>
          (let i = fresh_id (map a_id (authors d))
           in (d\<lparr>authors := authors d @ [\<lparr>a_id = i, a_name = author_name\<rparr>]\<rparr>, i)))"

section \<open>Statements and the store\<close>

text \<open>
  The record of the external source (\<open>arxiv.Result\<close>), with the fields the ingestion
  reads; of \<open>published\<close> and \<open>updated\<close> only the date is used.
\<close>

record arxiv_result =
  r_entry_id :: string
  r_title :: string
  r_summary :: string
  r_published :: date
  r_updated :: "date option"
  r_comment :: "string option"
  r_journal_ref :: "string option"
  r_doi :: "string option"
  r_primary_category :: string
  r_authors :: "string list"

text \<open>
  The statements the ingestion client and the tagging service send. \<open>cursor.execute\<close> and
  \<open>conn.commit\<close> raise when the store rejects the statement (a column constraint of the
  schema, a lost connection); the store and the schema are not among the sources, so
  which statements are accepted is a parameter \<open>accepts\<close> of every operation that
  handles such an exception.
\<close>

datatype stmt =
    SelectPaperId string
  | UpdatePaper nat arxiv_result
  | DeletePaperAuthors nat
  | InsertPaper string arxiv_result
  | UpsertAuthor string
  | InsertPaperAuthor nat nat nat
  | SelectTag string string
  | InsertTag string string "string option"
  | InsertPaperTag nat nat
  | SelectPaperAndTag string string string
  | DeletePaperTag nat nat
  | Commit

section \<open>The ingestion client: \<open>fetch_arxiv.py\<close>\<close>

subsection \<open>\<open>insert_or_update_paper\<close>\<close>

text \<open>
  The loop over \<open>enumerate(paper.authors, start=1)\<close>. An exception leaves the cursor's
  earlier statements in the open transaction, so the state is returned in both cases.
\<close>

fun link_authors ::
  "(stmt \<Rightarrow> bool) \<Rightarrow> nat \<Rightarrow> nat \<Rightarrow> string list \<Rightarrow> db \<Rightarrow> db \<times> (error + unit)" where
  "link_authors accepts paper_id order [] d = (d, Inr ())"
| "link_authors accepts paper_id order (author_name # rest) d =
     (if \<not> accepts (UpsertAuthor author_name) then (d, Inl DbError)
      else
        (let (d1, author_id) = upsert_author author_name d
         in if \<not> accepts (InsertPaperAuthor paper_id author_id order) then (d1, Inl DbError)
            else link_authors accepts paper_id (Suc order) rest
                   (insert_ignore_paper_author paper_id author_id order d1)))"

definition extract_arxiv_id :: "arxiv_result \<Rightarrow> string" where
  "extract_arxiv_id paper = last (py_split_sep ''/abs/'' (r_entry_id paper))"

definition update_paper :: "nat \<Rightarrow> arxiv_result \<Rightarrow> db \<Rightarrow> db" where
  "update_paper paper_id paper d =
     d\<lparr>papers := map (\<lambda>p. if p_id p = paper_id
                           then p\<lparr>p_title := r_title paper,
                                  p_abstract := r_summary paper,
                                  p_published_date := r_published paper,
                                  p_updated_date := r_updated paper,
                                  p_comment := r_comment paper,
                                  p_journal_ref := r_journal_ref paper,
                                  p_doi := r_doi paper,
                                  p_primary_category := r_primary_category paper\<rparr>
                           else p) (papers d)\<rparr>"

definition delete_paper_authors :: "nat \<Rightarrow> db \<Rightarrow> db" where
  "delete_paper_authors paper_id d =
     d\<lparr>paper_authors := filter (\<lambda>l. pa_paper_id l \<noteq> paper_id) (paper_authors d)\<rparr>"

definition insert_paper :: "string \<Rightarrow> arxiv_result \<Rightarrow> db \<Rightarrow> db \<times> nat" where
  "insert_paper arxiv_id paper d =
     (let i = fresh_id (map p_id (papers d))
      in (d\<lparr>papers := papers d @
               [\<lparr>p_id = i, p_arxiv_id = arxiv_id, p_title = r_title paper,
                 p_abstract = r_summary paper, p_published_date = r_published paper,
                 p_updated_date = r_updated paper, p_comment = r_comment paper,
                 p_journal_ref = r_journal_ref paper, p_doi = r_doi paper,
                 p_primary_category = r_primary_category paper\<rparr>]\<rparr>, i))"

definition insert_or_update_paper ::
  "(stmt \<Rightarrow> bool) \<Rightarrow> arxiv_result \<Rightarrow> db \<Rightarrow> db \<times> (error + nat)" where
  "insert_or_update_paper accepts paper d =
     (let arxiv_id = extract_arxiv_id paper
      in if \<not> accepts (SelectPaperId arxiv_id) then (d, Inl DbError)
         else
           (case find (\<lambda>p. p_arxiv_id p = arxiv_id) (papers d) of
              Some result \<Rightarrow>
                (let paper_id = p_id result
                 in if \<not> accepts (UpdatePaper paper_id paper) then (d, Inl DbError)
                    else
                      (let d1 = update_paper paper_id paper d
                       in if \<not> accepts (DeletePaperAuthors paper_id) then (d1, Inl DbError)
                          else
                            (case link_authors accepts paper_id 1 (r_authors paper)
                                    (delete_paper_authors paper_id d1) of
                               (d2, Inl e) \<Rightarrow> (d2, Inl e)
                             | (d2, Inr _) \<Rightarrow> (d2, Inr paper_id))))
            | None \<Rightarrow>
                if \<not> accepts (InsertPaper arxiv_id paper) then (d, Inl DbError)
                else
                  (let (d1, paper_id) = insert_paper arxiv_id paper d
                   in case link_authors accepts paper_id 1 (r_authors paper) d1 of
                        (d2, Inl e) \<Rightarrow> (d2, Inl e)
                      | (d2, Inr _) \<Rightarrow> (d2, Inr paper_id))))"

subsection \<open>The batches: \<open>fetch_recent_papers\<close> and \<open>fetch_date_range\<close>\<close>

text \<open>
  What the external source delivers for the query, in order: a record, or a failure of
  the source (the exception the client's generator raises).
\<close>

datatype fetch_event = Result arxiv_result | SourceFailure

text \<open>
  \<open>client.results(search)\<close> of the external client: the generator yields at most
  \<open>max_results\<close> records and is not advanced after the last of them.
\<close>

fun client_results :: "nat \<Rightarrow> fetch_event list \<Rightarrow> fetch_event list" where
  "client_results 0 es = []"
| "client_results (Suc n) [] = []"
| "client_results (Suc n) (Result r # es) = Result r # client_results n es"
| "client_results (Suc n) (SourceFailure # es) = [SourceFailure]"

text \<open>
  The \<open>for\<close> loop with its inner \<open>try\<close>: a record whose upsert raises is counted in
  \<open>errors\<close> and the loop goes on, on the cursor as the failed upsert left it. A failure
  of the generator leaves the loop with the exception.
\<close>

fun process_results ::
  "(stmt \<Rightarrow> bool) \<Rightarrow> fetch_event list \<Rightarrow> nat \<Rightarrow> nat \<Rightarrow> db \<Rightarrow> error + (db \<times> nat \<times> nat)" where
  "process_results accepts [] count errors d = Inr (d, count, errors)"
| "process_results accepts (SourceFailure # es) count errors d = Inl SourceError"
| "process_results accepts (Result paper # es) count errors d =
     (case insert_or_update_paper accepts paper d of
        (d1, Inr _) \<Rightarrow> process_results accepts es (count + 1) errors d1
      | (d1, Inl _) \<Rightarrow> process_results accepts es count (errors + 1) d1)"

text \<open>
  The outcome of a batch: the committed state of the store after the call, the calls
  of \<open>conn.commit\<close> and \<open>conn.rollback\<close> it made, and the counters it printed or the
  exception it re-raised.
\<close>

datatype txn_call = CommitCall | RollbackCall

record batch_outcome =
  committed :: db
  txn_calls :: "txn_call list"
  outcome :: "error + (nat \<times> nat)"

definition run_batch :: "(stmt \<Rightarrow> bool) \<Rightarrow> nat \<Rightarrow> fetch_event list \<Rightarrow> db \<Rightarrow> batch_outcome" where
  "run_batch accepts max_results feed d =
     (case process_results accepts (client_results max_results feed) 0 0 d of
        Inr (d1, count, errors) \<Rightarrow>
          if accepts Commit
          then \<lparr>committed = d1, txn_calls = [CommitCall], outcome = Inr (count, errors)\<rparr>
          else \<lparr>committed = d, txn_calls = [CommitCall, RollbackCall], outcome = Inl DbError\<rparr>
      | Inl e \<Rightarrow> \<lparr>committed = d, txn_calls = [RollbackCall], outcome = Inl e\<rparr>)"

definition fetch_recent_papers :: "(stmt \<Rightarrow> bool) \<Rightarrow> fetch_event list \<Rightarrow> db \<Rightarrow> batch_outcome" where
  "fetch_recent_papers accepts feed d = run_batch accepts 500 feed d"

definition fetch_date_range :: "(stmt \<Rightarrow> bool) \<Rightarrow> fetch_event list \<Rightarrow> db \<Rightarrow> batch_outcome" where
  "fetch_date_range accepts feed d = run_batch accepts 5000 feed d"

section \<open>The tagging service: \<open>tags_helper.py\<close>\<close>

definition get_or_create_tag ::
  "(stmt \<Rightarrow> bool) \<Rightarrow> string \<Rightarrow> string \<Rightarrow> string option \<Rightarrow> db \<Rightarrow> db \<times> (error + nat)" where
  "get_or_create_tag accepts tag_name tag_type description d =
     (if \<not> accepts (SelectTag tag_name tag_type) then (d, Inl DbError)
      else
        (case find (\<lambda>t. t_name t = tag_name \<and> t_tag_type t = tag_type) (tags d) of
           Some result \<Rightarrow> (d, Inr (t_id result))
         | None \<Rightarrow>
             if \<not> accepts (InsertTag tag_name tag_type description) then (d, Inl DbError)
             else
               (let i = fresh_id (map t_id (tags d))
                in (d\<lparr>tags := tags d @
                         [\<lparr>t_id = i, t_name = tag_name, t_tag_type = tag_type,
                           t_description = description\<rparr>]\<rparr>, Inr i))))"

text \<open>
  The two operations return the committed state of the store and the boolean of the
  source. An exception inside the \<open>try\<close> is answered by \<open>conn.rollback()\<close> and
  \<open>return False\<close>: the committed state is the one the call started from.
\<close>

definition add_tag_to_paper ::
  "(stmt \<Rightarrow> bool) \<Rightarrow> string \<Rightarrow> string \<Rightarrow> string \<Rightarrow> string option \<Rightarrow> db \<Rightarrow> db \<times> bool" where
  "add_tag_to_paper accepts arxiv_id tag_name tag_type description d =
     (if \<not> accepts (SelectPaperId arxiv_id) then (d, False)
      else
        (case find (\<lambda>p. p_arxiv_id p = arxiv_id) (papers d) of
           None \<Rightarrow> (d, False)
         | Some result \<Rightarrow>
             (let paper_id = p_id result
              in case get_or_create_tag accepts tag_name tag_type description d of
                   (d1, Inl e) \<Rightarrow> (d, False)
                 | (d1, Inr tag_id) \<Rightarrow>
                     if \<not> accepts (InsertPaperTag paper_id tag_id) then (d, False)
                     else if \<not> accepts Commit then (d, False)
                     else (insert_ignore_paper_tag paper_id tag_id d1, True))))"

text \<open>
  \<open>SELECT p.id, t.id FROM papers p, tags t WHERE ...\<close> with \<open>fetchone\<close>: the first row
  of the product of the matching papers and the matching tags.
\<close>

definition select_paper_and_tag :: "string \<Rightarrow> string \<Rightarrow> string \<Rightarrow> db \<Rightarrow> (nat \<times> nat) list" where
  "select_paper_and_tag arxiv_id tag_name tag_type d =
     concat (map (\<lambda>p. map (\<lambda>t. (p_id p, t_id t))
                         (filter (\<lambda>t. t_name t = tag_name \<and> t_tag_type t = tag_type) (tags d)))
                 (filter (\<lambda>p. p_arxiv_id p = arxiv_id) (papers d)))"

definition delete_paper_tag :: "nat \<Rightarrow> nat \<Rightarrow> db \<Rightarrow> db" where
  "delete_paper_tag paper_id tag_id d =
     d\<lparr>paper_tags := filter (\<lambda>l. \<not> (pt_paper_id l = paper_id \<and> pt_tag_id l = tag_id))
                        (paper_tags d)\<rparr>"

definition remove_tag_from_paper ::
  "(stmt \<Rightarrow> bool) \<Rightarrow> string \<Rightarrow> string \<Rightarrow> string \<Rightarrow> db \<Rightarrow> db \<times> bool" where
  "remove_tag_from_paper accepts arxiv_id tag_name tag_type d =
     (if \<not> accepts (SelectPaperAndTag arxiv_id tag_name tag_type) then (d, False)
      else
        (case select_paper_and_tag arxiv_id tag_name tag_type d of
           [] \<Rightarrow> (d, False)
         | (paper_id, tag_id) # _ \<Rightarrow>
             if \<not> accepts (DeletePaperTag paper_id tag_id) then (d, False)
             else if \<not> accepts Commit then (d, False)
             else (delete_paper_tag paper_id tag_id d, True)))"

section \<open>The presentation layer: \<open>app.py\<close>\<close>

text \<open>
  The routes only read. Their queries are taken to be answered by the store, with one
  exception that the statement itself decides: \<open>LIMIT %s OFFSET %s\<close> with a negative
  offset is refused as a syntax error, so the request fails with the store's exception.
\<close>

definition get_paper_authors :: "db \<Rightarrow> nat \<Rightarrow> string list" where
  "get_paper_authors d paper_id =
     concat (map (\<lambda>l. map a_name (filter (\<lambda>a. a_id a = pa_author_id l) (authors d)))
                 (sort_key pa_author_order
                    (filter (\<lambda>l. pa_paper_id l = paper_id) (paper_authors d))))"

definition with_authors :: "db \<Rightarrow> paper_row \<Rightarrow> paper_row \<times> string list" where
  "with_authors d paper = (paper, get_paper_authors d (p_id paper))"

text \<open>\<open>ORDER BY published_date DESC, id DESC\<close> and \<open>ORDER BY id DESC\<close>.\<close>

definition newest_first :: "paper_row list \<Rightarrow> paper_row list" where
  "newest_first rows = rev (sort_key (\<lambda>p. (p_published_date p, p_id p)) rows)"


text \<open>\<open>LIMIT per_page OFFSET offset\<close> on the ordered rows of a query.\<close>

definition limit_offset :: "nat \<Rightarrow> int \<Rightarrow> 'a list \<Rightarrow> error + 'a list" where
  "limit_offset per_page offset rows =
     (if offset < 0 then Inl DbError else Inr (take per_page (drop (nat offset) rows)))"

text \<open>\<open>SELECT MAX(published_date) FROM papers\<close>: \<open>NULL\<close> on an empty table.\<close>

definition latest_published :: "db \<Rightarrow> date option" where
  "latest_published d =
     (case papers d of [] \<Rightarrow> None | p # ps \<Rightarrow> Some (fold max (map p_published_date ps) (p_published_date p)))"

record page_view =
  v_papers :: "(paper_row \<times> string list) list"
  v_page :: int
  v_total_pages :: nat
  v_total :: nat
  v_latest_date :: "date option"

definition index :: "db \<Rightarrow> int \<Rightarrow> error + (page_view \<times> nat)" where
  "index d page =
     (let per_page = 20;
          offset = (page - 1) * int per_page;
          total = length (papers d);
          total_authors = length (authors d);
          latest_date = latest_published d
      in case limit_offset per_page offset (newest_first (papers d)) of
           Inl e \<Rightarrow> Inl e
         | Inr rows \<Rightarrow>
             Inr (\<lparr>v_papers = map (with_authors d) rows, v_page = page,
                   v_total_pages = (total + per_page - 1) div per_page,
                   v_total = total, v_latest_date = latest_date\<rparr>, total_authors))"

text \<open>
  The rows of the author listing: the join of \<open>papers\<close> with the links of the author,
  one row for every link.
\<close>

definition author_rows :: "db \<Rightarrow> nat \<Rightarrow> paper_row list" where
  "author_rows d author_id =
     concat (map (\<lambda>p. map (\<lambda>l. p)
                         (filter (\<lambda>l. pa_paper_id l = p_id p \<and> pa_author_id l = author_id)
                            (paper_authors d)))
                 (newest_first (papers d)))"

definition author_papers :: "db \<Rightarrow> string \<Rightarrow> int \<Rightarrow> error + (author_row \<times> page_view)" where
  "author_papers d author_name page =
     (let per_page = 20;
          offset = (page - 1) * int per_page
      in case find (\<lambda>a. a_name a = author_name) (authors d) of
           None \<Rightarrow> Inl (Abort 404)
         | Some author \<Rightarrow>
             (let latest_date = latest_published d;
                  total = length (author_rows d (a_id author))
              in case limit_offset per_page offset (author_rows d (a_id author)) of
                   Inl e \<Rightarrow> Inl e
                 | Inr rows \<Rightarrow>
                     Inr (author,
                          \<lparr>v_papers = map (with_authors d) rows, v_page = page,
                            v_total_pages = (total + per_page - 1) div per_page,
                            v_total = total, v_latest_date = latest_date\<rparr>)))"

text \<open>
  The search route. \<open>LIKE\<close> with the pattern \<open>%query%\<close> is the store's matching (its
  collation and its wildcards), a parameter \<open>like\<close> of the route: \<open>like q text\<close> says
  whether the text matches the pattern made from \<open>q\<close>. \<open>strip\<close> removes the whitespace
  at both ends of the query. An empty query renders no page count.
\<close>

definition strip :: "string \<Rightarrow> string" where
  "strip s = rev (dropWhile isspace (rev (dropWhile isspace s)))"

definition search_rows :: "(string \<Rightarrow> string \<Rightarrow> bool) \<Rightarrow> db \<Rightarrow> string \<Rightarrow> paper_row list" where
  "search_rows like d query =
     filter (\<lambda>p. like query (p_title p) \<or> like query (p_abstract p) \<or>
                 list_ex (\<lambda>l. pa_paper_id l = p_id p \<and>
                              list_ex (\<lambda>a. a_id a = pa_author_id l \<and> like query (a_name a))
                                (authors d))
                   (paper_authors d))
       (newest_first (papers d))"

definition search ::
  "(string \<Rightarrow> string \<Rightarrow> bool) \<Rightarrow> db \<Rightarrow> string \<Rightarrow> int \<Rightarrow> error + (string \<times> page_view) option" where
  "search like d q page =
     (let query = strip q;
          per_page = 20;
          offset = (page - 1) * int per_page
      in if query = [] then Inr None
         else
           (let latest_date = latest_published d;
                total = length (search_rows like d query)
            in case limit_offset per_page offset (search_rows like d query) of
                 Inl e \<Rightarrow> Inl e
               | Inr rows \<Rightarrow>
                   Inr (Some (query,
                        \<lparr>v_papers = map (with_authors d) rows, v_page = page,
                          v_total_pages = (total + per_page - 1) div per_page,
                          v_total = total, v_latest_date = latest_date\<rparr>))))"

text \<open>
  The routes \<open>/paper/<arxiv_id>\<close> and \<open>/api/bibtex/<arxiv_id>\<close> are declared with the
  framework's default converter for the variable part: the view is called for one
  non-empty path segment only. A text with a slash in it, or the empty text, matches no
  rule of the application, and the request is answered with 404 before any view runs.
\<close>

definition url_segment :: "string \<Rightarrow> bool" where
  "url_segment s = (s \<noteq> [] \<and> CHR ''/'' \<notin> set s)"


subsection \<open>\<open>papers_by_date\<close>\<close>









subsection \<open>\<open>bibtex\<close>\<close>

definition newline :: string where
  "newline = [CHR 0x0A]"

text \<open>The text of the entry, from the values the route has computed.\<close>

definition bibtex_text ::
  "string \<Rightarrow> string \<Rightarrow> string \<Rightarrow> nat \<Rightarrow> string \<Rightarrow> string option \<Rightarrow> string option \<Rightarrow> string" where
  "bibtex_text key author_str protected_title year clean_id journal_ref doi =
     ''@article{'' @ key @ '','' @ newline @
     ''Author = {'' @ author_str @ ''},'' @ newline @
     ''Title = {'' @ protected_title @ ''},'' @ newline @
     ''Year = {'' @ str_nat year @ ''},'' @ newline @
     ''Eprint = {'' @ clean_id @ ''},'' @ newline @
     ''  url = {https://arxiv.org/abs/'' @ clean_id @ ''},'' @ newline @
     ''journal = {arXiv e-prints}'' @
     (case journal_ref of
        None \<Rightarrow> []
      | Some j \<Rightarrow> if j = [] then [] else '','' @ newline @ ''journalref = {'' @ j @ ''}'') @
     (case doi of
        None \<Rightarrow> []
      | Some i \<Rightarrow> if i = [] then [] else '','' @ newline @ ''doi = {'' @ i @ ''}'') @
     newline @ ''}''"

text \<open>
  The route \<open>/api/bibtex/<arxiv_id>\<close>: the rule of the route first, then the view.
\<close>

definition bibtex :: "db \<Rightarrow> string \<Rightarrow> error + string" where
  "bibtex d arxiv_id =
     (if \<not> url_segment arxiv_id then Inl (Abort 404)
      else
        (case find (\<lambda>p. p_arxiv_id p = arxiv_id) (papers d) of
           None \<Rightarrow> Inl (Abort 404)
         | Some paper \<Rightarrow>
             (let authors = get_paper_authors d (p_id paper);
                  year = fst (p_published_date paper)
              in case bibtex_key authors year of
                   Inl e \<Rightarrow> Inl e
                 | Inr key \<Rightarrow>
                     (let author_str = (if authors \<noteq> [] then join '' and '' authors else ''Unknown'');
                          clean_id = clean_arxiv_id (p_arxiv_id paper);
                          protected_title = protect_capitals_for_bibtex (p_title paper)
                      in Inr (bibtex_text key author_str protected_title year clean_id
                                (p_journal_ref paper) (p_doi paper))))))"

section \<open>Reference definitions and example states\<close>

text \<open>
  The last whitespace-delimited token of a name, said directly and not by scanning: drop
  the whitespace at the end, then keep the longest suffix free of whitespace.
\<close>

definition last_token :: "string \<Rightarrow> string" where
  "last_token s = rev (takeWhile (\<lambda>c. \<not> isspace c) (dropWhile isspace (rev s)))"

definition empty_db :: db where
  "empty_db = \<lparr>papers = [], authors = [], paper_authors = [], tags = [], paper_tags = []\<rparr>"

text \<open>
  A store with two papers, two authors and one tag; the first paper has both authors and
  the tag, the second has no author.
\<close>

definition sample_db :: db where
  "sample_db =
     \<lparr>papers = [\<lparr>p_id = 1, p_arxiv_id = ''2401.12345v2'', p_title = ''RNA-Binding Proteins'',
                  p_abstract = ''An abstract.'', p_published_date = (2024, 1, 15),
                  p_updated_date = Some (2024, 2, 1), p_comment = None,
                  p_journal_ref = None, p_doi = Some ''10.1000/x'',
                  p_primary_category = ''math.CO''\<rparr>,
                \<lparr>p_id = 2, p_arxiv_id = ''2402.00001v1'', p_title = ''Young tableaux'',
                  p_abstract = ''Another abstract.'', p_published_date = (2024, 2, 3),
                  p_updated_date = None, p_comment = None, p_journal_ref = None,
                  p_doi = None, p_primary_category = ''math.CO''\<rparr>],
       authors = [\<lparr>a_id = 1, a_name = ''Jane A. Doe''\<rparr>, \<lparr>a_id = 2, a_name = ''Bob Roe''\<rparr>],
       paper_authors = [\<lparr>pa_paper_id = 1, pa_author_id = 1, pa_author_order = 1\<rparr>,
                        \<lparr>pa_paper_id = 1, pa_author_id = 2, pa_author_order = 2\<rparr>],
       tags = [\<lparr>t_id = 1, t_name = ''05E05'', t_tag_type = ''msc'', t_description = None\<rparr>,
               \<lparr>t_id = 2, t_name = ''to-read'', t_tag_type = ''personal'', t_description = None\<rparr>],
       paper_tags = [\<lparr>pt_paper_id = 1, pt_tag_id = 1\<rparr>]\<rparr>"

text \<open>
  A store with 45 papers, numbered 1 to 45, and the authors and links of \<open>sample_db\<close>.
\<close>

definition many_db :: db where
  "many_db =
     sample_db\<lparr>papers :=
       map (\<lambda>i. \<lparr>p_id = i, p_arxiv_id = ''2403.'' @ str_nat i, p_title = ''Paper'',
                   p_abstract = ''An abstract.'', p_published_date = (2024, 3, 1),
                   p_updated_date = None, p_comment = None, p_journal_ref = None,
                   p_doi = None, p_primary_category = ''math.CO''\<rparr>) [1..<46]\<rparr>"

text \<open>
  \<open>sample_db\<close> after the tag \<open>schur\<close> of type \<open>personal\<close> has been attached to its second
  paper: the tag is new and gets the id 3.
\<close>

definition attached_db :: db where
  "attached_db =
     sample_db\<lparr>tags := tags sample_db @
                 [\<lparr>t_id = 3, t_name = ''schur'', t_tag_type = ''personal'',
                   t_description = Some ''Schur functions''\<rparr>],
               paper_tags := paper_tags sample_db @ [\<lparr>pt_paper_id = 2, pt_tag_id = 3\<rparr>]\<rparr>"

text \<open>Two records of the external source; the first has two authors, the second one.\<close>

definition result_a :: arxiv_result where
  "result_a =
     \<lparr>r_entry_id = ''http://arxiv.org/abs/2401.00001v1'', r_title = ''Schur positivity'',
       r_summary = ''We prove positivity.'', r_published = (2024, 1, 2), r_updated = None,
       r_comment = None, r_journal_ref = None, r_doi = None,
       r_primary_category = ''math.CO'', r_authors = [''Ann Lee'', ''Bo Chen'']\<rparr>"

definition result_b :: arxiv_result where
  "result_b =
     \<lparr>r_entry_id = ''http://arxiv.org/abs/2401.00002v1'', r_title = ''Crystal bases'',
       r_summary = ''We study crystals.'', r_published = (2024, 1, 3), r_updated = None,
       r_comment = None, r_journal_ref = None, r_doi = None,
       r_primary_category = ''math.CO'', r_authors = [''Ann Lee'']\<rparr>"

text \<open>
  A store that raises on the statement inserting the author \<open>Bo Chen\<close> and accepts every
  other statement.
\<close>

definition rejecting_store :: "stmt \<Rightarrow> bool" where
  "rejecting_store s = (case s of UpsertAuthor author_name \<Rightarrow> author_name \<noteq> ''Bo Chen'' | _ \<Rightarrow> True)"

text \<open>
  The rows of \<open>result_a\<close> and \<open>result_b\<close> as the ingestion writes them into an empty
  store, with the ids 1 and 2.
\<close>

definition row_a :: paper_row where
  "row_a =
     \<lparr>p_id = 1, p_arxiv_id = ''2401.00001v1'', p_title = ''Schur positivity'',
       p_abstract = ''We prove positivity.'', p_published_date = (2024, 1, 2),
       p_updated_date = None, p_comment = None, p_journal_ref = None, p_doi = None,
       p_primary_category = ''math.CO''\<rparr>"

definition row_b :: paper_row where
  "row_b =
     \<lparr>p_id = 2, p_arxiv_id = ''2401.00002v1'', p_title = ''Crystal bases'',
       p_abstract = ''We study crystals.'', p_published_date = (2024, 1, 3),
       p_updated_date = None, p_comment = None, p_journal_ref = None, p_doi = None,
       p_primary_category = ''math.CO''\<rparr>"






section \<open>Citation export: theorems\<close>

subsection \<open>Escaping of capitals\<close>

text \<open>
  C5. The three substitutions are applied one after the other; on the title of the
  docstring, \<open>RNA-Binding Proteins\<close>, they give \<open>{RNA}-{B}inding Proteins\<close>: the
  capital \<open>P\<close> follows a space, which none of the three patterns matches, so it is
  not wrapped, unlike in the output the docstring announces.
\<close>

theorem protect_capitals_docstring_input:
  "protect_capitals_for_bibtex ''RNA-Binding Proteins'' = ''{RNA}-{B}inding Proteins''"
  by code_simp

subsection \<open>The citation key\<close>

lemma no_space_dropWhile: "\<forall>x\<in>set xs. \<not> isspace x \<Longrightarrow> dropWhile isspace xs = xs"
  by (cases xs) auto

lemma last_token_after_space:
  assumes "isspace c" and "\<exists>x\<in>set ys. \<not> isspace x"
  shows "last_token (xs @ c # ys) = last_token ys"
proof -
  from assms(2) obtain x where x: "x \<in> set (rev ys)" "\<not> isspace x" by auto
  have "dropWhile isspace (rev ys @ c # rev xs) = dropWhile isspace (rev ys) @ c # rev xs"
    using x by (rule dropWhile_append1)
  moreover have "takeWhile (\<lambda>c. \<not> isspace c) (dropWhile isspace (rev ys) @ c # rev xs)
      = takeWhile (\<lambda>c. \<not> isspace c) (dropWhile isspace (rev ys))"
    using assms(1) by (simp add: takeWhile_tail)
  ultimately show ?thesis by (simp add: last_token_def)
qed

lemma last_token_word:
  assumes "\<forall>x\<in>set cur. \<not> isspace x" and "\<forall>x\<in>set cs. isspace x"
  shows "last_token (cur @ cs) = cur"
proof -
  have "dropWhile isspace (rev cs @ rev cur) = dropWhile isspace (rev cur)"
    using assms(2) by (intro dropWhile_append2) simp
  also have "\<dots> = rev cur" using assms(1) by (simp add: no_space_dropWhile)
  finally have a: "dropWhile isspace (rev (cur @ cs)) = rev cur" by simp
  have b: "takeWhile (\<lambda>c. \<not> isspace c) (rev cur) = rev cur"
    using assms(1) by (intro takeWhile_eq_all_conv [THEN iffD2]) simp
  show ?thesis unfolding last_token_def a b by simp
qed

lemma split_ws_empty:
  "split_ws cur s = [] \<longleftrightarrow> cur = [] \<and> (\<forall>c\<in>set s. isspace c)"
  by (induction s arbitrary: cur) auto

lemma split_ws_last:
  "\<forall>x\<in>set cur. \<not> isspace x \<Longrightarrow> split_ws cur s \<noteq> [] \<Longrightarrow>
   last (split_ws cur s) = last_token (cur @ s)"
proof (induction s arbitrary: cur)
  case Nil
  then show ?case using last_token_word [of cur "[]"] by (simp split: if_splits)
next
  case (Cons c cs)
  show ?case
  proof (cases "isspace c")
    case False
    with Cons show ?thesis by simp
  next
    case sp: True
    show ?thesis
    proof (cases "split_ws [] cs = []")
      case True
      then have all: "\<forall>x\<in>set (c # cs). isspace x" using sp by (simp add: split_ws_empty)
      from True Cons.prems sp have "cur \<noteq> []" by (auto split: if_splits)
      then have "last (split_ws cur (c # cs)) = cur" using sp True by simp
      then show ?thesis using last_token_word [OF Cons.prems(1) all] by simp
    next
      case False
      then have ex: "\<exists>x\<in>set cs. \<not> isspace x" by (simp add: split_ws_empty)
      have "last (split_ws cur (c # cs)) = last (split_ws [] cs)" using sp False by simp
      also have "\<dots> = last_token cs" using Cons.IH [of "[]"] False by simp
      finally show ?thesis using last_token_after_space [OF sp ex] by simp
    qed
  qed
qed

lemma py_split_last: "py_split s \<noteq> [] \<Longrightarrow> last (py_split s) = last_token s"
  using split_ws_last [of "[]" s] by (simp add: py_split_def)

lemma py_split_empty: "py_split s = [] \<longleftrightarrow> (\<forall>c\<in>set s. isspace c)"
  by (simp add: py_split_def split_ws_empty)

text \<open>
  C6. When the first author's name has a token (a character that is not whitespace),
  the key is the last whitespace-delimited token of that name, its alphanumeric
  characters only, then the year, then \<open>x\<close>; with no author it is \<open>arxiv\<close>, the year
  and \<open>x\<close>. First author \<open>Jane A. Doe\<close> and year 2024 give \<open>Doe2024x\<close>.
\<close>

theorem citation_key:
  "(\<not> (\<forall>c\<in>set first_author. isspace c) \<longrightarrow>
      bibtex_key (first_author # others) year =
        Inr (filter isalnum (last_token first_author) @ str_nat year @ ''x''))
   \<and> bibtex_key [] year = Inr (''arxiv'' @ str_nat year @ ''x'')
   \<and> bibtex_key [''Jane A. Doe''] 2024 = Inr ''Doe2024x''"
proof (intro conjI impI)
  assume ne: "\<not> (\<forall>c\<in>set first_author. isspace c)"
  then have "py_split first_author \<noteq> []" by (simp add: py_split_empty)
  then show "bibtex_key (first_author # others) year =
        Inr (filter isalnum (last_token first_author) @ str_nat year @ ''x'')"
    using py_split_last [of first_author]
    by (cases "py_split first_author") (simp_all add: bibtex_key_def)
next
  show "bibtex_key [] year = Inr (''arxiv'' @ str_nat year @ ''x'')"
    by (simp add: bibtex_key_def)
next
  show "bibtex_key [''Jane A. Doe''] 2024 = Inr ''Doe2024x''"
    by code_simp
qed

theorem citation_key_witness:
  "\<not> (\<forall>c\<in>set ''Ada  Lovelace-King ''. isspace c) \<and>
   bibtex_key [''Ada  Lovelace-King '', ''B''] 1843 = Inr ''LovelaceKing1843x''"
proof -
  have ne: "\<not> (\<forall>c\<in>set ''Ada  Lovelace-King ''. isspace c)"
    by (simp add: isspace_def ord_def)
  have lt: "filter isalnum (last_token ''Ada  Lovelace-King '') @ str_nat 1843 @ ''x''
      = ''LovelaceKing1843x''"
    by code_simp
  from citation_key [of "''Ada  Lovelace-King ''" "[''B'']" 1843] ne lt show ?thesis
    by simp
qed

subsection \<open>The cleaned identifier\<close>




lemma bibtex_not_a_segment: "\<not> url_segment arxiv_id \<Longrightarrow> bibtex d arxiv_id = Inl (Abort 404)"
  by (simp add: bibtex_def)








section \<open>The presentation layer: theorems\<close>

subsection \<open>Pagination\<close>

lemma ceil_pages: "(n + 20 - 1) div 20 = nat \<lceil>real n / 20\<rceil>"
proof -
  have "\<lceil>real n / 20\<rceil> = \<lceil>real_of_int (int n) / real_of_int 20\<rceil>" by simp
  also have "\<dots> = - (- int n div 20)" by (rule ceiling_divide_eq_div)
  also have "\<dots> = int ((n + 19) div 20)" by (simp add: zdiv_int)
  finally show ?thesis by simp
qed

lemma limit_offset_page:
  assumes "1 \<le> page"
  shows "limit_offset 20 ((page - 1) * int 20) rows
           = Inr (take 20 (drop (20 * nat (page - 1)) rows))"
proof -
  have "nat ((page - 1) * int 20) = 20 * nat (page - 1)" using assms by (simp add: nat_eq_iff)
  then show ?thesis using assms by (simp add: limit_offset_def)
qed

lemma map_fst_with_authors: "map (fst \<circ> with_authors d) rows = rows"
  by (induction rows) (simp_all add: with_authors_def)

lemma index_page:
  assumes "1 \<le> page"
  shows "\<exists>view n. index d page = Inr (view, n)
           \<and> v_total view = length (papers d)
           \<and> v_total_pages view = nat \<lceil>real (length (papers d)) / 20\<rceil>
           \<and> map fst (v_papers view)
               = take 20 (drop (20 * nat (page - 1)) (newest_first (papers d)))"
  using limit_offset_page [OF assms, of "newest_first (papers d)"]
    ceil_pages [of "length (papers d)"]
  by (simp add: index_def Let_def map_fst_with_authors)

lemma author_papers_page:
  assumes "1 \<le> page" and "find (\<lambda>a. a_name a = author_name) (authors d) = Some author"
  shows "\<exists>view. author_papers d author_name page = Inr (author, view)
           \<and> v_total view = length (author_rows d (a_id author))
           \<and> v_total_pages view = nat \<lceil>real (length (author_rows d (a_id author))) / 20\<rceil>
           \<and> map fst (v_papers view)
               = take 20 (drop (20 * nat (page - 1)) (author_rows d (a_id author)))"
  using limit_offset_page [OF assms(1), of "author_rows d (a_id author)"]
    ceil_pages [of "length (author_rows d (a_id author))"] assms(2)
  by (simp add: author_papers_def Let_def map_fst_with_authors)

lemma search_page:
  assumes "1 \<le> page" and "strip q \<noteq> []"
  shows "\<exists>view. search like d q page = Inr (Some (strip q, view))
           \<and> v_total view = length (search_rows like d (strip q))
           \<and> v_total_pages view = nat \<lceil>real (length (search_rows like d (strip q))) / 20\<rceil>
           \<and> map fst (v_papers view)
               = take 20 (drop (20 * nat (page - 1)) (search_rows like d (strip q)))"
  using limit_offset_page [OF assms(1), of "search_rows like d (strip q)"]
    ceil_pages [of "length (search_rows like d (strip q))"] assms(2)
  by (simp add: search_def Let_def map_fst_with_authors)

lemma length_newest_first: "length (newest_first rows) = length rows"
  by (simp add: newest_first_def)

lemma index_45:
  assumes "length (papers d) = 45"
  shows "\<exists>view n. index d 3 = Inr (view, n) \<and> v_total_pages view = 3
           \<and> length (v_papers view) = 5"
proof -
  from index_page [of 3 d] obtain view n where
    v: "index d 3 = Inr (view, n)"
       "v_total_pages view = nat \<lceil>real (length (papers d)) / 20\<rceil>"
       "map fst (v_papers view) = take 20 (drop (20 * nat (3 - 1)) (newest_first (papers d)))"
    by auto
  have "length (map fst (v_papers view)) = 5"
    unfolding v(3) using assms by (simp add: length_newest_first)
  moreover have "nat \<lceil>real (45::nat) / 20\<rceil> = 3"
    using ceil_pages [of 45] by simp
  ultimately show ?thesis using v(1,2) assms by simp
qed

text \<open>
  C8. On every paginated view (the list of papers, the papers of an author, the search
  results), for a page number \<open>page \<ge> 1\<close>: the view reports
  \<open>total_pages = \<lceil>total / 20\<rceil>\<close>, where \<open>total\<close> is the number of matching rows,
  and its papers are the rows of the ordered result from offset \<open>20 * (page - 1)\<close>, at
  most 20 of them. With 45 papers the list has 3 pages and page 3 has 5 rows.
\<close>

theorem pagination:
  assumes "1 \<le> page"
  shows "(\<exists>view n. index d page = Inr (view, n)
            \<and> v_total view = length (papers d)
            \<and> v_total_pages view = nat \<lceil>real (length (papers d)) / 20\<rceil>
            \<and> map fst (v_papers view)
                = take 20 (drop (20 * nat (page - 1)) (newest_first (papers d))))
       \<and> (find (\<lambda>a. a_name a = author_name) (authors d) = Some author \<longrightarrow>
           (\<exists>view. author_papers d author_name page = Inr (author, view)
              \<and> v_total view = length (author_rows d (a_id author))
              \<and> v_total_pages view = nat \<lceil>real (length (author_rows d (a_id author))) / 20\<rceil>
              \<and> map fst (v_papers view)
                  = take 20 (drop (20 * nat (page - 1)) (author_rows d (a_id author)))))
       \<and> (strip q \<noteq> [] \<longrightarrow>
           (\<exists>view. search like d q page = Inr (Some (strip q, view))
              \<and> v_total view = length (search_rows like d (strip q))
              \<and> v_total_pages view = nat \<lceil>real (length (search_rows like d (strip q))) / 20\<rceil>
              \<and> map fst (v_papers view)
                  = take 20 (drop (20 * nat (page - 1)) (search_rows like d (strip q)))))
       \<and> (length (papers d) = 45 \<longrightarrow>
           (\<exists>view n. index d 3 = Inr (view, n) \<and> v_total_pages view = 3
              \<and> length (v_papers view) = 5))"
  using index_page [OF assms] author_papers_page [OF assms] search_page [OF assms] index_45
  by blast

lemma many_db_length: "length (papers many_db) = 45"
  by (simp add: many_db_def)

lemma many_db_author:
  "find (\<lambda>a. a_name a = ''Bob Roe'') (authors many_db) = Some \<lparr>a_id = 2, a_name = ''Bob Roe''\<rparr>"
  by (simp add: many_db_def sample_db_def)

lemma strip_example: "strip '' RNA  '' = ''RNA''"
  by (simp add: strip_def isspace_def ord_def)

theorem pagination_witness:
  "(\<exists>view n. index many_db 3 = Inr (view, n) \<and> v_total_pages view = 3
      \<and> length (v_papers view) = 5)
   \<and> (\<exists>view. author_papers many_db ''Bob Roe'' 3 = Inr (\<lparr>a_id = 2, a_name = ''Bob Roe''\<rparr>, view)
      \<and> v_total view = length (author_rows many_db 2))
   \<and> (\<exists>view. search (\<lambda>q text. q = text) many_db '' RNA  '' 3 = Inr (Some (''RNA'', view))
      \<and> v_total view = length (search_rows (\<lambda>q text. q = text) many_db ''RNA''))"
proof -
  have p: "(1::int) \<le> 3" by simp
  have s: "strip '' RNA  '' \<noteq> []" by (simp add: strip_example)
  from pagination [OF p, of many_db "''Bob Roe''" "\<lparr>a_id = 2, a_name = ''Bob Roe''\<rparr>"
      "'' RNA  ''" "\<lambda>q text. q = text"] many_db_length many_db_author s
  show ?thesis by (simp add: strip_example) blast
qed


subsection \<open>Unknown paper, author or date\<close>









section \<open>The tagging service: theorems\<close>

subsection \<open>Detaching a tag\<close>

lemma find_Some_filter: "find P xs = Some x \<Longrightarrow> \<exists>ys. filter P xs = x # ys"
  by (induction xs) (auto split: if_splits)

lemma find_None_filter: "find P xs = None \<Longrightarrow> filter P xs = []"
  by (induction xs) (auto split: if_splits)

lemma select_paper_and_tag_found:
  assumes "find (\<lambda>p. p_arxiv_id p = arxiv_id) (papers d) = Some paper"
    and "find (\<lambda>t. t_name t = tag_name \<and> t_tag_type t = tag_type) (tags d) = Some tag"
  shows "\<exists>rest. select_paper_and_tag arxiv_id tag_name tag_type d = (p_id paper, t_id tag) # rest"
proof -
  from find_Some_filter [OF assms(1)] obtain ps
    where ps: "filter (\<lambda>p. p_arxiv_id p = arxiv_id) (papers d) = paper # ps" by blast
  from find_Some_filter [OF assms(2)] obtain ts
    where ts: "filter (\<lambda>t. t_name t = tag_name \<and> t_tag_type t = tag_type) (tags d) = tag # ts"
    by blast
  show ?thesis unfolding select_paper_and_tag_def ps ts by simp
qed

lemma select_paper_and_tag_none:
  assumes "find (\<lambda>p. p_arxiv_id p = arxiv_id) (papers d) = None \<or>
           find (\<lambda>t. t_name t = tag_name \<and> t_tag_type t = tag_type) (tags d) = None"
  shows "select_paper_and_tag arxiv_id tag_name tag_type d = []"
  using assms
proof
  assume "find (\<lambda>p. p_arxiv_id p = arxiv_id) (papers d) = None"
  from find_None_filter [OF this] show ?thesis
    unfolding select_paper_and_tag_def by simp
next
  assume "find (\<lambda>t. t_name t = tag_name \<and> t_tag_type t = tag_type) (tags d) = None"
  from find_None_filter [OF this] show ?thesis
    unfolding select_paper_and_tag_def by simp
qed

lemma delete_paper_tag_absent:
  assumes "\<not> list_ex (\<lambda>l. pt_paper_id l = paper_id \<and> pt_tag_id l = tag_id) (paper_tags d)"
  shows "delete_paper_tag paper_id tag_id d = d"
proof -
  have "filter (\<lambda>l. \<not> (pt_paper_id l = paper_id \<and> pt_tag_id l = tag_id)) (paper_tags d) =
          paper_tags d"
    using assms by (intro filter_True) (auto simp: list_ex_iff)
  then show ?thesis by (simp add: delete_paper_tag_def)
qed

lemma remove_tag_from_paper_False:
  "snd (remove_tag_from_paper accepts arxiv_id tag_name tag_type d) = False \<Longrightarrow>
   fst (remove_tag_from_paper accepts arxiv_id tag_name tag_type d) = d"
  by (auto simp: remove_tag_from_paper_def split: if_splits list.splits)

text \<open>
  C2, as the code has it. When the paper and the tag both exist and the store accepts
  the statements, detaching reports success, whether a link connects them or not, and
  leaves no link between them; with no link before, the store is as it was. Detaching
  reports failure when the paper or the tag does not exist, and a call that reports
  failure has changed nothing.
\<close>

theorem detach_reports:
  "(\<forall>paper tag.
      find (\<lambda>p. p_arxiv_id p = arxiv_id) (papers d) = Some paper \<and>
      find (\<lambda>t. t_name t = tag_name \<and> t_tag_type t = tag_type) (tags d) = Some tag \<and>
      accepts (SelectPaperAndTag arxiv_id tag_name tag_type) \<and>
      accepts (DeletePaperTag (p_id paper) (t_id tag)) \<and> accepts Commit \<longrightarrow>
      remove_tag_from_paper accepts arxiv_id tag_name tag_type d =
        (delete_paper_tag (p_id paper) (t_id tag) d, True) \<and>
      \<not> list_ex (\<lambda>l. pt_paper_id l = p_id paper \<and> pt_tag_id l = t_id tag)
          (paper_tags (delete_paper_tag (p_id paper) (t_id tag) d)) \<and>
      (\<not> list_ex (\<lambda>l. pt_paper_id l = p_id paper \<and> pt_tag_id l = t_id tag) (paper_tags d) \<longrightarrow>
         remove_tag_from_paper accepts arxiv_id tag_name tag_type d = (d, True))) \<and>
   (find (\<lambda>p. p_arxiv_id p = arxiv_id) (papers d) = None \<or>
    find (\<lambda>t. t_name t = tag_name \<and> t_tag_type t = tag_type) (tags d) = None \<longrightarrow>
      remove_tag_from_paper accepts arxiv_id tag_name tag_type d = (d, False)) \<and>
   (snd (remove_tag_from_paper accepts arxiv_id tag_name tag_type d) = False \<longrightarrow>
      fst (remove_tag_from_paper accepts arxiv_id tag_name tag_type d) = d)"
proof (intro conjI allI impI)
  fix paper tag
  assume a: "find (\<lambda>p. p_arxiv_id p = arxiv_id) (papers d) = Some paper \<and>
      find (\<lambda>t. t_name t = tag_name \<and> t_tag_type t = tag_type) (tags d) = Some tag \<and>
      accepts (SelectPaperAndTag arxiv_id tag_name tag_type) \<and>
      accepts (DeletePaperTag (p_id paper) (t_id tag)) \<and> accepts Commit"
  then obtain rest
    where s: "select_paper_and_tag arxiv_id tag_name tag_type d = (p_id paper, t_id tag) # rest"
    using select_paper_and_tag_found by blast
  show r: "remove_tag_from_paper accepts arxiv_id tag_name tag_type d =
        (delete_paper_tag (p_id paper) (t_id tag) d, True)"
    using a by (simp add: remove_tag_from_paper_def s)
  show "\<not> list_ex (\<lambda>l. pt_paper_id l = p_id paper \<and> pt_tag_id l = t_id tag)
          (paper_tags (delete_paper_tag (p_id paper) (t_id tag) d))"
    by (simp add: delete_paper_tag_def list_ex_iff)
  assume "\<not> list_ex (\<lambda>l. pt_paper_id l = p_id paper \<and> pt_tag_id l = t_id tag) (paper_tags d)"
  from delete_paper_tag_absent [OF this] r
  show "remove_tag_from_paper accepts arxiv_id tag_name tag_type d = (d, True)" by simp
next
  assume "find (\<lambda>p. p_arxiv_id p = arxiv_id) (papers d) = None \<or>
    find (\<lambda>t. t_name t = tag_name \<and> t_tag_type t = tag_type) (tags d) = None"
  from select_paper_and_tag_none [OF this]
  show "remove_tag_from_paper accepts arxiv_id tag_name tag_type d = (d, False)"
    by (simp add: remove_tag_from_paper_def)
next
  assume "snd (remove_tag_from_paper accepts arxiv_id tag_name tag_type d) = False"
  then show "fst (remove_tag_from_paper accepts arxiv_id tag_name tag_type d) = d"
    by (rule remove_tag_from_paper_False)
qed

lemma sample_paper_1:
  "find (\<lambda>p. p_arxiv_id p = ''2401.12345v2'') (papers sample_db) = Some (hd (papers sample_db))"
  "p_id (hd (papers sample_db)) = 1"
  by (simp_all add: sample_db_def)

lemma sample_tag_1:
  "find (\<lambda>t. t_name t = ''05E05'' \<and> t_tag_type t = ''msc'') (tags sample_db) =
     Some (hd (tags sample_db))"
  "t_id (hd (tags sample_db)) = 1"
  by (simp_all add: sample_db_def)

lemma sample_no_tag:
  "find (\<lambda>t. t_name t = ''absent'' \<and> t_tag_type t = ''personal'') (tags sample_db) = None"
  by (simp add: sample_db_def)

theorem detach_reports_witness:
  "remove_tag_from_paper (\<lambda>s. True) ''2401.12345v2'' ''05E05'' ''msc'' sample_db =
     (sample_db\<lparr>paper_tags := []\<rparr>, True) \<and>
   remove_tag_from_paper (\<lambda>s. True) ''2401.12345v2'' ''05E05'' ''msc''
     (sample_db\<lparr>paper_tags := []\<rparr>) = (sample_db\<lparr>paper_tags := []\<rparr>, True) \<and>
   remove_tag_from_paper (\<lambda>s. True) ''2401.12345v2'' ''absent'' ''personal'' sample_db =
     (sample_db, False)"
proof -
  let ?e = "sample_db\<lparr>paper_tags := []\<rparr>"
  have d: "delete_paper_tag 1 1 sample_db = ?e"
    by (simp add: delete_paper_tag_def sample_db_def)
  have e: "find (\<lambda>p. p_arxiv_id p = ''2401.12345v2'') (papers ?e) = Some (hd (papers sample_db))"
    "find (\<lambda>t. t_name t = ''05E05'' \<and> t_tag_type t = ''msc'') (tags ?e) = Some (hd (tags sample_db))"
    "\<not> list_ex (\<lambda>l. pt_paper_id l = 1 \<and> pt_tag_id l = 1) (paper_tags ?e)"
    by (simp_all add: sample_paper_1 sample_tag_1)
  note t1 = detach_reports [of "''2401.12345v2''" sample_db "''05E05''" "''msc''" "\<lambda>s. True",
      THEN conjunct1, THEN spec, THEN spec, THEN mp, THEN conjunct1]
  have p1: "remove_tag_from_paper (\<lambda>s. True) ''2401.12345v2'' ''05E05'' ''msc'' sample_db = (?e, True)"
    using t1 [of "hd (papers sample_db)" "hd (tags sample_db)"]
    unfolding sample_paper_1 sample_tag_1 d by simp
  note t2 = detach_reports [of "''2401.12345v2''" ?e "''05E05''" "''msc''" "\<lambda>s. True",
      THEN conjunct1, THEN spec, THEN spec, THEN mp, THEN conjunct2, THEN conjunct2, THEN mp]
  have p2: "remove_tag_from_paper (\<lambda>s. True) ''2401.12345v2'' ''05E05'' ''msc'' ?e = (?e, True)"
    using t2 [of "hd (papers sample_db)" "hd (tags sample_db)"] e
    unfolding sample_paper_1 sample_tag_1 by simp
  note t3 = detach_reports [of "''2401.12345v2''" sample_db "''absent''" "''personal''" "\<lambda>s. True",
      THEN conjunct2, THEN conjunct1, THEN mp]
  have p3: "remove_tag_from_paper (\<lambda>s. True) ''2401.12345v2'' ''absent'' ''personal'' sample_db =
     (sample_db, False)"
    using t3 sample_no_tag by simp
  show ?thesis by (intro conjI p1 p2 p3)
qed

text \<open>
  In \<open>sample_db\<close> the paper \<open>2401.12345v2\<close> and the tag \<open>to-read\<close> of type \<open>personal\<close>
  exist and no link connects them: detaching reports success.
\<close>

theorem detach_without_link_reports_success:
  "find (\<lambda>p. p_arxiv_id p = ''2401.12345v2'') (papers sample_db) \<noteq> None \<and>
   find (\<lambda>t. t_name t = ''to-read'' \<and> t_tag_type t = ''personal'') (tags sample_db) \<noteq> None \<and>
   \<not> list_ex (\<lambda>l. pt_paper_id l = 1 \<and> pt_tag_id l = 2) (paper_tags sample_db) \<and>
   select_paper_and_tag ''2401.12345v2'' ''to-read'' ''personal'' sample_db = [(1, 2)] \<and>
   remove_tag_from_paper (\<lambda>s. True) ''2401.12345v2'' ''to-read'' ''personal'' sample_db =
     (sample_db, True)"
proof -
  have s: "select_paper_and_tag ''2401.12345v2'' ''to-read'' ''personal'' sample_db = [(1, 2)]"
    by (simp add: select_paper_and_tag_def sample_db_def)
  have n: "\<not> list_ex (\<lambda>l. pt_paper_id l = 1 \<and> pt_tag_id l = 2) (paper_tags sample_db)"
    by (simp add: sample_db_def)
  have r: "remove_tag_from_paper (\<lambda>s. True) ''2401.12345v2'' ''to-read'' ''personal'' sample_db =
     (sample_db, True)"
    unfolding remove_tag_from_paper_def s list.case prod.case delete_paper_tag_absent [OF n]
    by simp
  have p: "find (\<lambda>p. p_arxiv_id p = ''2401.12345v2'') (papers sample_db) \<noteq> None"
    by (simp add: sample_db_def)
  have t: "find (\<lambda>t. t_name t = ''to-read'' \<and> t_tag_type t = ''personal'') (tags sample_db) \<noteq> None"
    by (simp add: sample_db_def)
  show ?thesis by (intro conjI p t n s r)
qed


subsection \<open>Attaching a tag\<close>

lemma find_append_new:
  "find P xs = None \<Longrightarrow> P x \<Longrightarrow> find P (xs @ [x]) = Some x"
  by (induction xs) (auto split: if_splits)

lemma get_or_create_tag_Inr:
  assumes "get_or_create_tag accepts tag_name tag_type description d = (d1, Inr tag_id)"
  shows "accepts (SelectTag tag_name tag_type)"
    and "\<exists>tag. find (\<lambda>t. t_name t = tag_name \<and> t_tag_type t = tag_type) (tags d1) = Some tag \<and>
               t_id tag = tag_id"
    and "papers d1 = papers d" and "paper_tags d1 = paper_tags d"
proof -
  show a: "accepts (SelectTag tag_name tag_type)"
    using assms by (auto simp: get_or_create_tag_def split: if_splits)
  show "\<exists>tag. find (\<lambda>t. t_name t = tag_name \<and> t_tag_type t = tag_type) (tags d1) = Some tag \<and>
               t_id tag = tag_id"
  proof (cases "find (\<lambda>t. t_name t = tag_name \<and> t_tag_type t = tag_type) (tags d)")
    case None
    with assms a have "d1 = d\<lparr>tags := tags d @
                         [\<lparr>t_id = tag_id, t_name = tag_name, t_tag_type = tag_type,
                           t_description = description\<rparr>]\<rparr>"
      by (auto simp: get_or_create_tag_def Let_def split: if_splits)
    then show ?thesis using find_append_new [OF None] by simp
  next
    case (Some t)
    with assms a show ?thesis by (auto simp: get_or_create_tag_def)
  qed
  show "papers d1 = papers d"
    using assms by (auto simp: get_or_create_tag_def Let_def split: if_splits option.splits)
  show "paper_tags d1 = paper_tags d"
    using assms by (auto simp: get_or_create_tag_def Let_def split: if_splits option.splits)
qed

lemma get_or_create_tag_found:
  assumes "accepts (SelectTag tag_name tag_type)"
    and "find (\<lambda>t. t_name t = tag_name \<and> t_tag_type t = tag_type) (tags d) = Some tag"
  shows "get_or_create_tag accepts tag_name tag_type description d = (d, Inr (t_id tag))"
  using assms by (simp add: get_or_create_tag_def)

lemma get_or_create_tag_accepting:
  assumes "\<forall>s. accepts s"
  shows "\<exists>d1 tag_id. get_or_create_tag accepts tag_name tag_type description d = (d1, Inr tag_id)"
  using assms by (simp add: get_or_create_tag_def Let_def split: option.splits)

lemma insert_ignore_paper_tag_linked:
  "list_ex (\<lambda>l. pt_paper_id l = paper_id \<and> pt_tag_id l = tag_id)
     (paper_tags (insert_ignore_paper_tag paper_id tag_id d))"
  by (simp add: insert_ignore_paper_tag_def)

lemma insert_ignore_paper_tag_again:
  "insert_ignore_paper_tag paper_id tag_id (insert_ignore_paper_tag paper_id tag_id d) =
   insert_ignore_paper_tag paper_id tag_id d"
  using insert_ignore_paper_tag_linked [of paper_id tag_id d]
  by (subst insert_ignore_paper_tag_def) simp

lemma insert_ignore_paper_tag_fields:
  "papers (insert_ignore_paper_tag paper_id tag_id d) = papers d"
  "tags (insert_ignore_paper_tag paper_id tag_id d) = tags d"
  by (simp_all add: insert_ignore_paper_tag_def)

lemma count_link_distinct:
  fixes xs :: "paper_tag_row list"
  assumes "distinct xs"
    and "list_ex (\<lambda>l. pt_paper_id l = paper_id \<and> pt_tag_id l = tag_id) xs"
  shows "length (filter (\<lambda>l. pt_paper_id l = paper_id \<and> pt_tag_id l = tag_id) xs) = 1"
proof -
  let ?r = "\<lparr>pt_paper_id = paper_id, pt_tag_id = tag_id\<rparr>"
  have eq: "(pt_paper_id l = paper_id \<and> pt_tag_id l = tag_id) = (l = ?r)" for l :: paper_tag_row
    by (cases l) auto
  from assms(2) have m: "?r \<in> set xs" unfolding eq by (simp add: list_ex_iff)
  have "{l. l = ?r} \<inter> set xs = {?r}" using m by auto
  then show ?thesis
    unfolding eq using distinct_length_filter [OF assms(1), of "\<lambda>l. l = ?r"] by simp
qed

lemma count_link_after_insert:
  assumes "distinct (paper_tags d)"
  shows "length (filter (\<lambda>l. pt_paper_id l = paper_id \<and> pt_tag_id l = tag_id)
           (paper_tags (insert_ignore_paper_tag paper_id tag_id d))) = 1"
proof (rule count_link_distinct)
  show "distinct (paper_tags (insert_ignore_paper_tag paper_id tag_id d))"
    using assms by (auto simp: insert_ignore_paper_tag_def list_ex_iff)
  show "list_ex (\<lambda>l. pt_paper_id l = paper_id \<and> pt_tag_id l = tag_id)
          (paper_tags (insert_ignore_paper_tag paper_id tag_id d))"
    by (rule insert_ignore_paper_tag_linked)
qed

lemma add_tag_to_paper_True:
  assumes "add_tag_to_paper accepts arxiv_id tag_name tag_type description d = (d1, True)"
  shows "\<exists>paper d' tag_id.
           find (\<lambda>p. p_arxiv_id p = arxiv_id) (papers d) = Some paper \<and>
           accepts (SelectPaperId arxiv_id) \<and>
           get_or_create_tag accepts tag_name tag_type description d = (d', Inr tag_id) \<and>
           accepts (InsertPaperTag (p_id paper) tag_id) \<and> accepts Commit \<and>
           d1 = insert_ignore_paper_tag (p_id paper) tag_id d'"
  using assms
  by (auto simp: add_tag_to_paper_def Let_def split: if_splits option.splits prod.splits sum.splits)

lemma add_tag_to_paper_twice:
  assumes "distinct (paper_tags d)"
    and "add_tag_to_paper accepts arxiv_id tag_name tag_type description d = (d1, True)"
  shows "add_tag_to_paper accepts arxiv_id tag_name tag_type description' d1 = (d1, True)"
    and "\<exists>paper tag.
           find (\<lambda>p. p_arxiv_id p = arxiv_id) (papers d1) = Some paper \<and>
           find (\<lambda>t. t_name t = tag_name \<and> t_tag_type t = tag_type) (tags d1) = Some tag \<and>
           length (filter (\<lambda>l. pt_paper_id l = p_id paper \<and> pt_tag_id l = t_id tag)
                     (paper_tags d1)) = 1"
proof -
  from add_tag_to_paper_True [OF assms(2)] obtain paper d' tag_id where
    p: "find (\<lambda>p. p_arxiv_id p = arxiv_id) (papers d) = Some paper" and
    a1: "accepts (SelectPaperId arxiv_id)" and
    g: "get_or_create_tag accepts tag_name tag_type description d = (d', Inr tag_id)" and
    a2: "accepts (InsertPaperTag (p_id paper) tag_id)" and a3: "accepts Commit" and
    d1: "d1 = insert_ignore_paper_tag (p_id paper) tag_id d'"
    by blast
  from get_or_create_tag_Inr [OF g] obtain tag where
    a4: "accepts (SelectTag tag_name tag_type)" and
    t: "find (\<lambda>t. t_name t = tag_name \<and> t_tag_type t = tag_type) (tags d') = Some tag" and
    ti: "t_id tag = tag_id" and pp: "papers d' = papers d" and pt: "paper_tags d' = paper_tags d"
    by blast
  have p1: "find (\<lambda>p. p_arxiv_id p = arxiv_id) (papers d1) = Some paper"
    unfolding d1 insert_ignore_paper_tag_fields pp by (rule p)
  have t1: "find (\<lambda>t. t_name t = tag_name \<and> t_tag_type t = tag_type) (tags d1) = Some tag"
    unfolding d1 insert_ignore_paper_tag_fields by (rule t)
  have g1: "get_or_create_tag accepts tag_name tag_type description' d1 = (d1, Inr tag_id)"
    using get_or_create_tag_found [where accepts = accepts and tag_name = tag_name and
        tag_type = tag_type and d = d1 and tag = tag and description = description', OF a4 t1] ti
    by simp
  have i1: "insert_ignore_paper_tag (p_id paper) tag_id d1 = d1"
    unfolding d1 by (rule insert_ignore_paper_tag_again)
  show "add_tag_to_paper accepts arxiv_id tag_name tag_type description' d1 = (d1, True)"
    unfolding add_tag_to_paper_def using a1 a2 a3 by (simp add: p1 g1 i1)
  have "distinct (paper_tags d')" using assms(1) pt by simp
  from count_link_after_insert [OF this, of "p_id paper" tag_id]
  have "length (filter (\<lambda>l. pt_paper_id l = p_id paper \<and> pt_tag_id l = t_id tag)
                     (paper_tags d1)) = 1"
    unfolding d1 ti .
  with p1 t1 show "\<exists>paper tag.
           find (\<lambda>p. p_arxiv_id p = arxiv_id) (papers d1) = Some paper \<and>
           find (\<lambda>t. t_name t = tag_name \<and> t_tag_type t = tag_type) (tags d1) = Some tag \<and>
           length (filter (\<lambda>l. pt_paper_id l = p_id paper \<and> pt_tag_id l = t_id tag)
                     (paper_tags d1)) = 1"
    by blast
qed

lemma add_tag_to_paper_accepting:
  assumes "\<forall>s. accepts s"
    and "find (\<lambda>p. p_arxiv_id p = arxiv_id) (papers d) = Some paper"
  shows "snd (add_tag_to_paper accepts arxiv_id tag_name tag_type description d) = True"
proof -
  from get_or_create_tag_accepting [OF assms(1)] obtain d1 tag_id
    where "get_or_create_tag accepts tag_name tag_type description d = (d1, Inr tag_id)"
    by blast
  then show ?thesis using assms by (simp add: add_tag_to_paper_def)
qed

text \<open>
  C4. Let the paper exist and the table of links hold no link twice. An attach that
  reports success leaves exactly one link between the paper and the tag of that
  (name, type), and the same attach on the resulting store, with any description,
  reports success again and changes nothing; on a store that accepts every statement
  the attach does report success. When no paper has the identifier, the attach returns
  \<open>False\<close> and the store is as it was, whatever the store accepts.
\<close>

theorem attach_idempotent:
  "(distinct (paper_tags d) \<and>
    add_tag_to_paper accepts arxiv_id tag_name tag_type description d = (d1, True) \<longrightarrow>
      add_tag_to_paper accepts arxiv_id tag_name tag_type description' d1 = (d1, True) \<and>
      (\<exists>paper tag.
         find (\<lambda>p. p_arxiv_id p = arxiv_id) (papers d1) = Some paper \<and>
         find (\<lambda>t. t_name t = tag_name \<and> t_tag_type t = tag_type) (tags d1) = Some tag \<and>
         length (filter (\<lambda>l. pt_paper_id l = p_id paper \<and> pt_tag_id l = t_id tag)
                   (paper_tags d1)) = 1)) \<and>
   ((\<forall>s. accepts s) \<and> find (\<lambda>p. p_arxiv_id p = arxiv_id) (papers d) \<noteq> None \<longrightarrow>
      snd (add_tag_to_paper accepts arxiv_id tag_name tag_type description d) = True) \<and>
   (find (\<lambda>p. p_arxiv_id p = arxiv_id) (papers d) = None \<longrightarrow>
      add_tag_to_paper accepts arxiv_id tag_name tag_type description d = (d, False))"
proof (intro conjI impI)
  assume a: "distinct (paper_tags d) \<and>
    add_tag_to_paper accepts arxiv_id tag_name tag_type description d = (d1, True)"
  then have a1: "distinct (paper_tags d)"
    and a2: "add_tag_to_paper accepts arxiv_id tag_name tag_type description d = (d1, True)"
    by simp_all
  show "add_tag_to_paper accepts arxiv_id tag_name tag_type description' d1 = (d1, True)"
    by (rule add_tag_to_paper_twice(1) [OF a1 a2])
  show "\<exists>paper tag.
         find (\<lambda>p. p_arxiv_id p = arxiv_id) (papers d1) = Some paper \<and>
         find (\<lambda>t. t_name t = tag_name \<and> t_tag_type t = tag_type) (tags d1) = Some tag \<and>
         length (filter (\<lambda>l. pt_paper_id l = p_id paper \<and> pt_tag_id l = t_id tag)
                   (paper_tags d1)) = 1"
    by (rule add_tag_to_paper_twice(2) [OF a1 a2])
next
  assume "(\<forall>s. accepts s) \<and> find (\<lambda>p. p_arxiv_id p = arxiv_id) (papers d) \<noteq> None"
  then obtain paper where "\<forall>s. accepts s"
    "find (\<lambda>p. p_arxiv_id p = arxiv_id) (papers d) = Some paper" by auto
  then show "snd (add_tag_to_paper accepts arxiv_id tag_name tag_type description d) = True"
    by (rule add_tag_to_paper_accepting)
next
  assume "find (\<lambda>p. p_arxiv_id p = arxiv_id) (papers d) = None"
  then show "add_tag_to_paper accepts arxiv_id tag_name tag_type description d = (d, False)"
    by (simp add: add_tag_to_paper_def)
qed

lemma sample_attach:
  "add_tag_to_paper (\<lambda>s. True) ''2402.00001v1'' ''schur'' ''personal'' (Some ''Schur functions'')
     sample_db = (attached_db, True)"
  by (simp add: add_tag_to_paper_def get_or_create_tag_def insert_ignore_paper_tag_def
      fresh_id_def sample_db_def attached_db_def Let_def)

lemma sample_distinct: "distinct (paper_tags sample_db)"
  by (simp add: sample_db_def)

lemma sample_no_paper:
  "find (\<lambda>p. p_arxiv_id p = ''9999.00000'') (papers sample_db) = None"
  by (simp add: sample_db_def)

theorem attach_idempotent_witness:
  "add_tag_to_paper (\<lambda>s. True) ''2402.00001v1'' ''schur'' ''personal'' None attached_db =
     (attached_db, True) \<and>
   length (filter (\<lambda>l. pt_paper_id l = 2 \<and> pt_tag_id l = 3) (paper_tags attached_db)) = 1 \<and>
   add_tag_to_paper (\<lambda>s. True) ''9999.00000'' ''schur'' ''personal'' None sample_db =
     (sample_db, False)"
proof -
  note t = attach_idempotent [of sample_db "\<lambda>s. True" "''2402.00001v1''" "''schur''"
      "''personal''" "Some ''Schur functions''" attached_db None]
  have p1: "add_tag_to_paper (\<lambda>s. True) ''2402.00001v1'' ''schur'' ''personal'' None attached_db =
     (attached_db, True)"
    using t sample_distinct sample_attach by blast
  have p2: "length (filter (\<lambda>l. pt_paper_id l = 2 \<and> pt_tag_id l = 3) (paper_tags attached_db)) = 1"
    by (simp add: attached_db_def sample_db_def)
  note t3 = attach_idempotent [of sample_db "\<lambda>s. True" "''9999.00000''" "''schur''"
      "''personal''" None attached_db None, THEN conjunct2, THEN conjunct2, THEN mp,
      OF sample_no_paper]
  show ?thesis by (intro conjI p1 p2 t3)
qed


section \<open>The ingestion client: theorems\<close>

subsection \<open>The cap on the records of one invocation\<close>

lemma client_results_take: "client_results n feed = client_results n (take n feed)"
  by (induction n feed rule: client_results.induct) simp_all

lemma length_client_results: "length (client_results n feed) \<le> n"
  by (induction n feed rule: client_results.induct) simp_all

lemma client_results_records: "client_results n (map Result rs) = map Result (take n rs)"
proof (induction n arbitrary: rs)
  case 0
  show ?case by simp
next
  case (Suc n)
  show ?case by (cases rs) (simp_all add: Suc)
qed

lemma process_results_counts:
  "process_results accepts es count errors d = Inr (d1, count1, errors1) \<Longrightarrow>
   count1 + errors1 = count + errors + length es"
proof (induction es arbitrary: count errors d)
  case Nil
  then show ?case by simp
next
  case (Cons ev es)
  show ?case
  proof (cases ev)
    case SourceFailure
    with Cons.prems show ?thesis by simp
  next
    case (Result paper)
    obtain d2 r where u: "insert_or_update_paper accepts paper d = (d2, r)"
      by (cases "insert_or_update_paper accepts paper d")
    show ?thesis
    proof (cases r)
      case (Inl e)
      with Cons.prems Result u
      have "process_results accepts es count (errors + 1) d2 = Inr (d1, count1, errors1)"
        by simp
      from Cons.IH [OF this] show ?thesis by simp
    next
      case (Inr i)
      with Cons.prems Result u
      have "process_results accepts es (count + 1) errors d2 = Inr (d1, count1, errors1)"
        by simp
      from Cons.IH [OF this] show ?thesis by simp
    qed
  qed
qed

lemma process_results_records:
  "\<exists>d1 count1 errors1.
     process_results accepts (map Result rs) count errors d = Inr (d1, count1, errors1)"
proof (induction rs arbitrary: count errors d)
  case Nil
  show ?case by simp
next
  case (Cons r rs)
  obtain d2 x where u: "insert_or_update_paper accepts r d = (d2, x)"
    by (cases "insert_or_update_paper accepts r d")
  show ?case using Cons [of _ _ d2] by (cases x) (simp_all add: u)
qed

lemma run_batch_take: "run_batch accepts n feed d = run_batch accepts n (take n feed) d"
  unfolding run_batch_def by (subst client_results_take) (rule refl)

lemma run_batch_bound:
  assumes "outcome (run_batch accepts n feed d) = Inr (count, errors)"
  shows "count + errors \<le> n"
proof (cases "process_results accepts (client_results n feed) 0 0 d")
  case (Inl e)
  with assms show ?thesis by (simp add: run_batch_def)
next
  case (Inr x)
  obtain d1 c e where x: "x = (d1, c, e)" by (cases x)
  from process_results_counts [OF Inr [unfolded x]]
  have "c + e = length (client_results n feed)" by simp
  with length_client_results [of n feed] have "c + e \<le> n" by simp
  moreover from assms Inr x have "count = c \<and> errors = e"
    by (simp add: run_batch_def split: if_splits)
  ultimately show ?thesis by simp
qed

lemma run_batch_records:
  assumes "accepts Commit"
  shows "\<exists>count errors. outcome (run_batch accepts n (map Result rs) d) = Inr (count, errors) \<and>
           count + errors = min (length rs) n"
proof -
  from process_results_records obtain d1 c e
    where p: "process_results accepts (map Result (take n rs)) 0 0 d = Inr (d1, c, e)" by blast
  from process_results_counts [OF p] have "c + e = min (length rs) n" by simp
  then show ?thesis using assms by (simp add: run_batch_def client_results_records p)
qed

text \<open>
  C10. The external client yields at most \<open>max_results\<close> records, 500 for the recent
  window and 5000 for a backfill. Whatever the source holds beyond the cap has no effect
  on the invocation: its outcome is the outcome on the first 500 (5000) entries of the
  feed. The records counted as processed or failed are at most 500 (5000), and when the
  source delivers \<open>rs\<close> without failing and the commit is accepted, they are exactly the
  first 500 (5000) of them.
\<close>

theorem ingestion_cap:
  "fetch_recent_papers accepts feed d = fetch_recent_papers accepts (take 500 feed) d \<and>
   fetch_date_range accepts feed d = fetch_date_range accepts (take 5000 feed) d \<and>
   (\<forall>count errors. outcome (fetch_recent_papers accepts feed d) = Inr (count, errors) \<longrightarrow>
      count + errors \<le> 500) \<and>
   (\<forall>count errors. outcome (fetch_date_range accepts feed d) = Inr (count, errors) \<longrightarrow>
      count + errors \<le> 5000) \<and>
   (accepts Commit \<longrightarrow>
      (\<exists>count errors.
         outcome (fetch_recent_papers accepts (map Result rs) d) = Inr (count, errors) \<and>
         count + errors = min (length rs) 500) \<and>
      (\<exists>count errors.
         outcome (fetch_date_range accepts (map Result rs) d) = Inr (count, errors) \<and>
         count + errors = min (length rs) 5000))"
proof (intro conjI allI impI)
  show "fetch_recent_papers accepts feed d = fetch_recent_papers accepts (take 500 feed) d"
    unfolding fetch_recent_papers_def by (rule run_batch_take)
  show "fetch_date_range accepts feed d = fetch_date_range accepts (take 5000 feed) d"
    unfolding fetch_date_range_def by (rule run_batch_take)
next
  fix count errors
  assume "outcome (fetch_recent_papers accepts feed d) = Inr (count, errors)"
  then show "count + errors \<le> 500"
    unfolding fetch_recent_papers_def by (rule run_batch_bound)
next
  fix count errors
  assume "outcome (fetch_date_range accepts feed d) = Inr (count, errors)"
  then show "count + errors \<le> 5000"
    unfolding fetch_date_range_def by (rule run_batch_bound)
next
  assume a: "accepts Commit"
  show "\<exists>count errors.
         outcome (fetch_recent_papers accepts (map Result rs) d) = Inr (count, errors) \<and>
         count + errors = min (length rs) 500"
    unfolding fetch_recent_papers_def using a by (rule run_batch_records)
  show "\<exists>count errors.
         outcome (fetch_date_range accepts (map Result rs) d) = Inr (count, errors) \<and>
         count + errors = min (length rs) 5000"
    unfolding fetch_date_range_def using a by (rule run_batch_records)
qed

theorem ingestion_cap_witness:
  "(\<exists>count errors.
      outcome (fetch_recent_papers (\<lambda>s. True) (map Result (replicate 501 result_a)) empty_db) =
        Inr (count, errors) \<and> count + errors = 500 \<and> count + errors \<le> 500) \<and>
   (\<exists>count errors.
      outcome (fetch_date_range (\<lambda>s. True) (map Result (replicate 501 result_a)) empty_db) =
        Inr (count, errors) \<and> count + errors = 501 \<and> count + errors \<le> 5000)"
proof -
  note t = ingestion_cap [of "\<lambda>s. True" "map Result (replicate 501 result_a)" empty_db
      "replicate 501 result_a"]
  from t obtain c e where
    r: "outcome (fetch_recent_papers (\<lambda>s. True) (map Result (replicate 501 result_a)) empty_db) =
          Inr (c, e)" "c + e = min (length (replicate 501 result_a)) 500"
    by blast
  from t r(1) have rb: "c + e \<le> 500" by blast
  from t obtain c' e' where
    b: "outcome (fetch_date_range (\<lambda>s. True) (map Result (replicate 501 result_a)) empty_db) =
          Inr (c', e')" "c' + e' = min (length (replicate 501 result_a)) 5000"
    by blast
  from t b(1) have bb: "c' + e' \<le> 5000" by blast
  from r rb b bb show ?thesis by simp
qed


subsection \<open>A record that fails in the middle of its upsert\<close>

lemma extract_result_a: "extract_arxiv_id result_a = ''2401.00001v1''"
  unfolding extract_arxiv_id_def result_a_def by (simp add: py_split_sep_def)

lemma extract_result_b: "extract_arxiv_id result_b = ''2401.00002v1''"
  unfolding extract_arxiv_id_def result_b_def by (simp add: py_split_sep_def)

lemma authors_result: "r_authors result_a = [''Ann Lee'', ''Bo Chen'']" "r_authors result_b = [''Ann Lee'']"
  by (simp_all add: result_a_def result_b_def)

lemma upsert_result_a_fails:
  "insert_or_update_paper rejecting_store result_a empty_db =
     (\<lparr>papers = [row_a], authors = [\<lparr>a_id = 1, a_name = ''Ann Lee''\<rparr>],
       paper_authors = [\<lparr>pa_paper_id = 1, pa_author_id = 1, pa_author_order = 1\<rparr>],
       tags = [], paper_tags = []\<rparr>, Inl DbError)"
  unfolding insert_or_update_paper_def extract_result_a Let_def
  by (simp add: rejecting_store_def empty_db_def insert_paper_def fresh_id_def authors_result
      upsert_author_def insert_ignore_paper_author_def row_a_def result_a_def)

lemma upsert_result_b_after:
  "insert_or_update_paper rejecting_store result_b
     \<lparr>papers = [row_a], authors = [\<lparr>a_id = 1, a_name = ''Ann Lee''\<rparr>],
       paper_authors = [\<lparr>pa_paper_id = 1, pa_author_id = 1, pa_author_order = 1\<rparr>],
       tags = [], paper_tags = []\<rparr> =
     (\<lparr>papers = [row_a, row_b], authors = [\<lparr>a_id = 1, a_name = ''Ann Lee''\<rparr>],
       paper_authors = [\<lparr>pa_paper_id = 1, pa_author_id = 1, pa_author_order = 1\<rparr>,
                        \<lparr>pa_paper_id = 2, pa_author_id = 1, pa_author_order = 1\<rparr>],
       tags = [], paper_tags = []\<rparr>, Inr 2)"
  unfolding insert_or_update_paper_def extract_result_b Let_def
  by (simp add: rejecting_store_def insert_paper_def fresh_id_def authors_result
      upsert_author_def insert_ignore_paper_author_def row_a_def row_b_def result_b_def)

lemma run_batch_two:
  assumes "2 \<le> n"
  shows "run_batch rejecting_store n [Result result_a, Result result_b] empty_db =
     \<lparr>committed =
        \<lparr>papers = [row_a, row_b], authors = [\<lparr>a_id = 1, a_name = ''Ann Lee''\<rparr>],
          paper_authors = [\<lparr>pa_paper_id = 1, pa_author_id = 1, pa_author_order = 1\<rparr>,
                           \<lparr>pa_paper_id = 2, pa_author_id = 1, pa_author_order = 1\<rparr>],
          tags = [], paper_tags = []\<rparr>,
       txn_calls = [CommitCall], outcome = Inr (1, 1)\<rparr>"
proof -
  have c: "client_results n [Result result_a, Result result_b] =
             [Result result_a, Result result_b]"
    using client_results_records [of n "[result_a, result_b]"] assms by simp
  have k: "rejecting_store Commit" by (simp add: rejecting_store_def)
  show ?thesis
    unfolding run_batch_def c process_results.simps upsert_result_a_fails prod.case sum.case
      upsert_result_b_after
    using k by simp
qed

text \<open>
  C3. A batch of two records on an empty store; the store raises on the statement for
  the second author of the first record. The first record is counted as an error and the
  loop goes on to the second, which is counted as processed, and the batch is committed
  once. The committed state holds the paper row of the failed record and the link to its
  first author: what the failed upsert had written before the exception is committed
  with the batch. Both batch functions behave so.
\<close>

theorem failed_record_is_committed_in_part:
  "fetch_recent_papers rejecting_store [Result result_a, Result result_b] empty_db =
     \<lparr>committed =
        \<lparr>papers = [row_a, row_b], authors = [\<lparr>a_id = 1, a_name = ''Ann Lee''\<rparr>],
          paper_authors = [\<lparr>pa_paper_id = 1, pa_author_id = 1, pa_author_order = 1\<rparr>,
                           \<lparr>pa_paper_id = 2, pa_author_id = 1, pa_author_order = 1\<rparr>],
          tags = [], paper_tags = []\<rparr>,
       txn_calls = [CommitCall], outcome = Inr (1, 1)\<rparr> \<and>
   fetch_date_range rejecting_store [Result result_a, Result result_b] empty_db =
     fetch_recent_papers rejecting_store [Result result_a, Result result_b] empty_db \<and>
   snd (insert_or_update_paper rejecting_store result_a empty_db) = Inl DbError \<and>
   p_arxiv_id row_a = extract_arxiv_id result_a"
proof -
  have a: "(2::nat) \<le> 500" and b: "(2::nat) \<le> 5000" by simp_all
  show ?thesis
    unfolding fetch_recent_papers_def fetch_date_range_def run_batch_two [OF a] run_batch_two [OF b]
    by (simp add: upsert_result_a_fails extract_result_a row_a_def)
qed


subsection \<open>The upsert of one record\<close>

























end
